theory Spec2Isabelle
  imports Main "HOL-Library.AList"
begin

section \<open>JavaScript values\<close>

text \<open>
  The script \<^verbatim>\<open>src/cookieSyncWithConsent.js\<close> works on dynamically typed values: the
  parsed response of the endpoint, the payload of a \<^verbatim>\<open>message\<close> event, the object that is
  serialised into the request. They are modelled by one datatype, the values of JSON and
  \<^verbatim>\<open>undefined\<close> (the data of a message is taken to be such a value). A string is the list
  of its code units; the model's strings have code units below 256. \<open>Num n\<close> is the
  number whose value is the integer \<open>n\<close> (\<open>Num 0\<close> stands for both zeros, which the
  script cannot tell apart); every number the script computes with comes from
  \<^verbatim>\<open>parseInt\<close>, whose results are integers or \<^verbatim>\<open>NaN\<close>. An engine holds a number as a
  double, so \<open>Num n\<close> is exact for \<open>\<bar>n\<bar> < 2 ^ 53\<close>. An object is the association list of
  its own properties (the first pair of a key is its binding).
\<close>

datatype number = NaN | Num int

datatype error = TypeError | SyntaxError

datatype jsval =
    JUndefined
  | JNull
  | JBool bool
  | JNum number
  | JStr string
  | JArr "jsval list"
  | JObj "(string \<times> jsval) list"

text \<open>\<^verbatim>\<open>ToBoolean\<close>: what \<^verbatim>\<open>if (v)\<close>, \<^verbatim>\<open>!v\<close> and \<^verbatim>\<open>v || w\<close> test.\<close>

fun truthy :: "jsval \<Rightarrow> bool" where
  "truthy JUndefined = False"
| "truthy JNull = False"
| "truthy (JBool b) = b"
| "truthy (JNum NaN) = False"
| "truthy (JNum (Num n)) = (n \<noteq> 0)"
| "truthy (JStr s) = (s \<noteq> [])"
| "truthy (JArr xs) = True"
| "truthy (JObj kvs) = True"

text \<open>
  Reading a property, \<^verbatim>\<open>v.name\<close>. On \<^verbatim>\<open>undefined\<close> and \<^verbatim>\<open>null\<close> it throws a TypeError.
  The names the script reads (\<^verbatim>\<open>status\<close>, \<^verbatim>\<open>bidder_status\<close>, \<^verbatim>\<open>length\<close>, \<^verbatim>\<open>no_cookie\<close>,
  \<^verbatim>\<open>usersync\<close>, \<^verbatim>\<open>type\<close>, \<^verbatim>\<open>url\<close>, \<^verbatim>\<open>bidder\<close>, \<^verbatim>\<open>consentMetadata\<close>, \<^verbatim>\<open>gdprApplies\<close>,
  \<^verbatim>\<open>consentString\<close>) are neither indices nor methods, so an array and a string have
  only \<^verbatim>\<open>length\<close> among them, and a number or a boolean has none.
\<close>

fun js_get :: "jsval \<Rightarrow> string \<Rightarrow> error + jsval" where
  "js_get JUndefined k = Inl TypeError"
| "js_get JNull k = Inl TypeError"
| "js_get (JObj kvs) k = Inr (case map_of kvs k of None \<Rightarrow> JUndefined | Some v \<Rightarrow> v)"
| "js_get (JArr xs) k = Inr (if k = ''length'' then JNum (Num (int (length xs))) else JUndefined)"
| "js_get (JStr s) k = Inr (if k = ''length'' then JNum (Num (int (length s))) else JUndefined)"
| "js_get (JBool b) k = Inr JUndefined"
| "js_get (JNum x) k = Inr JUndefined"

subsection \<open>Numbers and strings\<close>

text \<open>The code unit of a character is read as an integer.\<close>

definition code :: "char \<Rightarrow> int" where
  "code c = of_char c"

definition digit_char :: "int \<Rightarrow> char" where
  "digit_char d = char_of (48 + d)"

definition is_digit :: "char \<Rightarrow> bool" where
  "is_digit c = (48 \<le> code c \<and> code c \<le> 57)"

definition digit_val :: "char \<Rightarrow> int" where
  "digit_val c = code c - 48"

text \<open>The decimal digits of an integer that is not negative, most significant first.\<close>

function digits :: "int \<Rightarrow> string" where
  "digits n = (if n < 10 then [digit_char n] else digits (n div 10) @ [digit_char (n mod 10)])"
  by pat_completeness auto
termination
  by (relation "measure nat") auto

declare digits.simps [simp del]

fun strip_zeros :: "string \<Rightarrow> string" where
  "strip_zeros ds = rev (dropWhile (\<lambda>c. c = CHR ''0'') (rev ds))"

text \<open>
  \<^verbatim>\<open>Number::toString\<close> on the model's numbers: plain decimal digits below \<open>10 ^ 21\<close>, the
  exponent form \<^verbatim>\<open>d.ddde+N\<close> from there on (for a double an engine prints the shortest
  digits that read back as it; the model prints the digits of \<open>n\<close> without its trailing
  zeros).
\<close>

definition Number_toString :: "number \<Rightarrow> string" where
  "Number_toString x =
     (case x of
        NaN \<Rightarrow> ''NaN''
      | Num n \<Rightarrow>
          (let ds = digits \<bar>n\<bar>; sign = (if n < 0 then ''-'' else '''')
           in if \<bar>n\<bar> < 10 ^ 21 then sign @ ds
              else let sig = strip_zeros ds
                   in sign @ [hd sig] @ (if tl sig = [] then '''' else ''.'' @ tl sig)
                        @ ''e+'' @ digits (int (length ds) - 1)))"

text \<open>
  \<^verbatim>\<open>ToString\<close>, which a template literal, \<^verbatim>\<open>RegExp.prototype.test\<close> and \<^verbatim>\<open>==\<close> against a
  string apply to a value. An array joins its elements with commas, \<^verbatim>\<open>undefined\<close> and
  \<^verbatim>\<open>null\<close> elements printing as the empty string.
\<close>

fun join :: "string list \<Rightarrow> string" where
  "join [] = ''''"
| "join [s] = s"
| "join (s # t # ss) = s @ '','' @ join (t # ss)"

fun ToString :: "jsval \<Rightarrow> string" where
  "ToString JUndefined = ''undefined''"
| "ToString JNull = ''null''"
| "ToString (JBool b) = (if b then ''true'' else ''false'')"
| "ToString (JNum x) = Number_toString x"
| "ToString (JStr s) = s"
| "ToString (JArr xs) =
     join (map (\<lambda>x. if x = JUndefined \<or> x = JNull then '''' else ToString x) xs)"
| "ToString (JObj kvs) = ''[object Object]''"

text \<open>
  \<^verbatim>\<open>v == 'literal'\<close>, the loose comparison with a string: a string compares by its code
  units, an array or an object by its \<^verbatim>\<open>ToString\<close>; \<^verbatim>\<open>undefined\<close> and \<^verbatim>\<open>null\<close> are equal
  to no string; a number or a boolean is compared with the number the string reads as,
  which for a string that is not a numeric literal is \<^verbatim>\<open>NaN\<close>, equal to nothing. The
  script compares with \<^verbatim>\<open>'iframe'\<close> only, which is not numeric.
\<close>

fun loose_eq_word :: "jsval \<Rightarrow> string \<Rightarrow> bool" where
  "loose_eq_word (JStr s) w = (s = w)"
| "loose_eq_word (JArr xs) w = (ToString (JArr xs) = w)"
| "loose_eq_word (JObj kvs) w = (ToString (JObj kvs) = w)"
| "loose_eq_word v w = False"

section \<open>The URL validator\<close>

text \<open>
  \<^verbatim>\<open>isValidUrl\<close> is a regular expression with the flag \<^verbatim>\<open>i\<close>, anchored at both ends, so
  \<^verbatim>\<open>isValidUrl.test(url)\<close> holds when the whole of \<^verbatim>\<open>url\<close> is a word of it. The expression
  is kept as a syntax tree. A character set is a list of items: a character, a range,
  \<^verbatim>\<open>\d\<close> or \<^verbatim>\<open>\S\<close>. Under the flag \<^verbatim>\<open>i\<close> a character matches an item when its canonical
  form is that of a character of the item; canonical forms change letters only, and
  every character from code unit 161 on is in each set of the expression that has a letter
  range, so folding the letters \<^verbatim>\<open>a-z\<close> decides membership. The range
  \<^verbatim>\<open>\u00a1-\uffff\<close> is the code units from 161 to 65535.
\<close>

datatype cset = Ch char | Range int int | Digit | NonSpace

datatype regex =
    Eps
  | Cls "cset list"
  | Seq regex regex
  | Alt regex regex
  | Rep nat "nat option" regex
  | NotAhead regex

definition fold_case :: "char \<Rightarrow> char" where
  "fold_case c = (if 65 \<le> code c \<and> code c \<le> 90 then char_of (code c + 32) else c)"

definition is_space :: "char \<Rightarrow> bool" where
  "is_space c = (code c \<in> set [9, 10, 11, 12, 13, 32, 160])"

fun in_cset :: "cset \<Rightarrow> char \<Rightarrow> bool" where
  "in_cset (Ch a) c = (fold_case c = fold_case a)"
| "in_cset (Range lo hi) c =
     ((lo \<le> code c \<and> code c \<le> hi) \<or> (lo \<le> code (fold_case c) \<and> code (fold_case c) \<le> hi))"
| "in_cset Digit c = is_digit c"
| "in_cset NonSpace c = (\<not> is_space c)"

text \<open>
  \<open>repeat f lo n s\<close>: what is left of \<open>s\<close> after \<open>k\<close> rounds of \<open>f\<close>, for every
  \<open>lo \<le> k \<le> lo + n\<close>. \<open>rems r s\<close>: the suffixes of \<open>s\<close> left by the prefixes of \<open>s\<close> that
  \<open>r\<close> matches. The repeated parts of the expression match no empty string, so an
  unbounded repetition makes at most \<open>length s\<close> rounds. A negative lookahead
  \<^verbatim>\<open>(?!r)\<close> consumes nothing and holds where \<open>r\<close> matches no prefix.
\<close>

fun repeat :: "(string \<Rightarrow> string list) \<Rightarrow> nat \<Rightarrow> nat \<Rightarrow> string \<Rightarrow> string list" where
  "repeat f 0 0 s = [s]"
| "repeat f 0 (Suc n) s = s # concat (map (repeat f 0 n) (remdups (f s)))"
| "repeat f (Suc lo) n s = concat (map (repeat f lo n) (remdups (f s)))"

fun rems :: "regex \<Rightarrow> string \<Rightarrow> string list" where
  "rems Eps s = [s]"
| "rems (Cls cs) s =
     (case s of [] \<Rightarrow> [] | c # t \<Rightarrow> if list_ex (\<lambda>i. in_cset i c) cs then [t] else [])"
| "rems (Seq a b) s = remdups (concat (map (rems b) (rems a s)))"
| "rems (Alt a b) s = remdups (rems a s @ rems b s)"
| "rems (Rep lo hi a) s =
     remdups (repeat (rems a) lo (case hi of None \<Rightarrow> length s | Some h \<Rightarrow> h - lo) s)"
| "rems (NotAhead a) s = (if rems a s = [] then [s] else [])"

definition matches :: "regex \<Rightarrow> string \<Rightarrow> bool" where
  "matches r s = ([] \<in> set (rems r s))"

text \<open>Builders for the tree, named after the notation they stand for.\<close>

definition lit :: "string \<Rightarrow> regex" where
  "lit w = foldr (\<lambda>c r. Seq (Cls [Ch c]) r) w Eps"

definition seq :: "regex list \<Rightarrow> regex" where
  "seq rs = foldr Seq rs Eps"

definition alt :: "regex list \<Rightarrow> regex" where
  "alt rs = foldr Alt (butlast rs) (last rs)"

definition opt :: "regex \<Rightarrow> regex" where
  "opt r = Rep 0 (Some 1) r"

definition plus :: "regex \<Rightarrow> regex" where
  "plus r = Rep 1 None r"

definition star :: "regex \<Rightarrow> regex" where
  "star r = Rep 0 None r"

definition digit :: regex where
  "digit = Cls [Digit]"

definition nonspace :: regex where
  "nonspace = Cls [NonSpace]"

definition chars :: "int \<Rightarrow> int \<Rightarrow> regex" where
  "chars lo hi = Cls [Range lo hi]"

text \<open>
  The expression of line 29, part by part:
  \<^verbatim>\<open>^(?:(?:(?:https?|ftp):)?\/\/)\<close>, \<^verbatim>\<open>(?:\S+(?::\S*)?@)?\<close>, the three lookaheads that
  refuse the private ranges, the dotted quad, the host name with its top-level domain,
  \<^verbatim>\<open>(?::\d{2,5})?\<close> and \<^verbatim>\<open>(?:[/?#]\S*)?$\<close>.
\<close>

definition rx_scheme :: regex where
  "rx_scheme =
     seq [opt (seq [alt [seq [lit ''http'', opt (lit ''s'')], lit ''ftp''], lit '':'']), lit ''//'']"

definition rx_userinfo :: regex where
  "rx_userinfo = opt (seq [plus nonspace, opt (seq [lit '':'', star nonspace]), lit ''@''])"

definition rx_dot_num :: regex where
  "rx_dot_num = seq [lit ''.'', Rep 1 (Some 3) digit]"

definition rx_not_10_127 :: regex where
  "rx_not_10_127 = NotAhead (seq [alt [lit ''10'', lit ''127''], Rep 3 (Some 3) rx_dot_num])"

definition rx_not_169_192 :: regex where
  "rx_not_169_192 =
     NotAhead (seq [alt [lit ''169.254'', lit ''192.168''], Rep 2 (Some 2) rx_dot_num])"

definition rx_not_172 :: regex where
  "rx_not_172 =
     NotAhead (seq [lit ''172.'',
       alt [seq [lit ''1'', chars 54 57], seq [lit ''2'', digit], seq [lit ''3'', chars 48 49]],
       Rep 2 (Some 2) rx_dot_num])"

definition rx_ip :: regex where
  "rx_ip =
     seq [rx_not_10_127, rx_not_169_192, rx_not_172,
       alt [seq [chars 49 57, opt digit], seq [lit ''1'', digit, digit],
            seq [lit ''2'', chars 48 49, digit], seq [lit ''22'', chars 48 51]],
       Rep 2 (Some 2)
         (seq [lit ''.'',
            alt [seq [opt (lit ''1''), Rep 1 (Some 2) digit], seq [lit ''2'', chars 48 52, digit],
                 seq [lit ''25'', chars 48 53]]]),
       seq [lit ''.'',
            alt [seq [chars 49 57, opt digit], seq [lit ''1'', digit, digit],
                 seq [lit ''2'', chars 48 52, digit], seq [lit ''25'', chars 48 52]]]]"

definition rx_alnum :: regex where
  "rx_alnum = Cls [Range 97 122, Range 48 57, Range 161 65535]"

definition rx_alnum_dash :: regex where
  "rx_alnum_dash = Cls [Range 97 122, Range 48 57, Range 161 65535, Ch CHR ''_'', Ch CHR ''-'']"

definition rx_host :: regex where
  "rx_host =
     seq [plus (seq [opt (seq [rx_alnum, Rep 0 (Some 62) rx_alnum_dash]), rx_alnum, lit ''.'']),
          seq [Rep 2 None (Cls [Range 97 122, Range 161 65535]), opt (lit ''.'')]]"

definition rx_port :: regex where
  "rx_port = opt (seq [lit '':'', Rep 2 (Some 5) digit])"

definition rx_path :: regex where
  "rx_path = opt (seq [Cls [Ch CHR ''/'', Ch CHR ''?'', Ch CHR ''#''], star nonspace])"

definition isValidUrl :: regex where
  "isValidUrl = seq [rx_scheme, rx_userinfo, alt [rx_ip, rx_host], rx_port, rx_path]"

text \<open>\<^verbatim>\<open>isValidUrl.test(url)\<close>: the argument is converted to a string first.\<close>

definition isValidUrl_test :: "jsval \<Rightarrow> bool" where
  "isValidUrl_test url = matches isValidUrl (ToString url)"


section \<open>Transport helpers and the bidder dispatcher\<close>

text \<open>
  What the script does to the outside is a list of effects, in the order they happen: a
  line on the console, an image whose \<^verbatim>\<open>src\<close> is set (\<^verbatim>\<open>triggerPixel\<close>), a hidden iframe
  inserted into the document (\<^verbatim>\<open>triggerIframeLoad\<close>; its \<^verbatim>\<open>src\<close> and the bidder its \<^verbatim>\<open>id\<close> is
  made of), the request that \<^verbatim>\<open>ajax\<close> sends (its address and its body), the message
  posted to the parent frame when the script loads, and an exception that leaves an event
  handler uncaught. The body of the request is kept as the object that \<^verbatim>\<open>JSON.stringify\<close>
  is applied to.
\<close>

datatype report = NoValidUrl | ImageSync | IframeSync | Unsupported | XhrError | TimedOut

datatype payload = JSON_stringify "(string \<times> jsval) list"

datatype effect =
    Log report "string list"
  | Pixel string
  | Iframe string string
  | XhrSend string payload
  | PostMessage
  | Uncaught error

text \<open>
  What has become of the continuation \<^verbatim>\<open>done\<close> when a transport helper returns: it was
  called, it is a listener of the image (for \<^verbatim>\<open>load\<close> and for \<^verbatim>\<open>error\<close>, of which an image
  fires one), it is the \<^verbatim>\<open>onload\<close> of the iframe, or it was dropped: neither called nor
  kept anywhere.
\<close>

datatype continuation = Called | OnImage | OnIframe | Dropped

definition triggerIframeLoad :: "jsval \<Rightarrow> jsval \<Rightarrow> effect list \<times> continuation" where
  "triggerIframeLoad url bidder =
     (if \<not> truthy url then ([], Dropped)
      else ([Iframe (ToString url) (ToString bidder)], OnIframe))"

definition triggerPixel :: "jsval \<Rightarrow> effect list \<times> continuation" where
  "triggerPixel url = ([Pixel (ToString url)], OnImage)"

text \<open>
  \<open>log_then e r\<close>: the line \<open>e\<close> on the console, then the call whose result is \<open>r\<close>.
  The lines of \<^verbatim>\<open>doBidderSync\<close> are kept as their kind and the strings their template
  inserts.
\<close>

definition log_then :: "effect \<Rightarrow> effect list \<times> 'a \<Rightarrow> effect list \<times> 'a" where
  "log_then e r = (e # fst r, snd r)"

definition doBidderSync :: "jsval \<Rightarrow> jsval \<Rightarrow> jsval \<Rightarrow> effect list \<times> continuation" where
  "doBidderSync type url bidder =
     (if \<not> truthy url \<or> \<not> isValidUrl_test url then
        log_then (Log NoValidUrl [ToString bidder, ToString url]) ([], Called)
      else if type = JStr ''image'' \<or> type = JStr ''redirect'' then
        log_then (Log ImageSync [ToString bidder]) (triggerPixel url)
      else if loose_eq_word type ''iframe'' then
        log_then (Log IframeSync [ToString bidder]) (triggerIframeLoad url bidder)
      else
        log_then (Log Unsupported [ToString type, ToString bidder]) ([], Called))"

text \<open>
  One run of \<^verbatim>\<open>doAllSyncs\<close> ends in one of four ways: the list is empty (\<open>Finished\<close>); a
  transport was started and holds the continuation \<^verbatim>\<open>doAllSyncs.bind(null, bidders)\<close>,
  to be called when its event fires (\<open>Waiting\<close>, with the array as \<^verbatim>\<open>pop\<close> left it); the
  continuation was dropped (\<open>Stalled\<close>); an exception was thrown (\<open>Threw\<close>).
\<close>

datatype chain = Finished | Waiting jsval | Stalled | Threw error

definition and_then :: "effect list \<Rightarrow> effect list \<times> chain \<Rightarrow> effect list \<times> chain" where
  "and_then es r = (es @ fst r, snd r)"

fun js_path :: "jsval \<Rightarrow> string list \<Rightarrow> error + jsval" where
  "js_path v [] = Inr v"
| "js_path v (k # ks) = (case js_get v k of Inl e \<Rightarrow> Inl e | Inr w \<Rightarrow> js_path w ks)"

text \<open>
  The arguments of the call of \<^verbatim>\<open>doBidderSync\<close> in line 75, \<^verbatim>\<open>thisSync.usersync.type\<close>,
  \<^verbatim>\<open>thisSync.usersync.url\<close> and \<^verbatim>\<open>thisSync.bidder\<close>, are read before the call, left to
  right; reading a property of \<^verbatim>\<open>undefined\<close> or \<^verbatim>\<open>null\<close> throws.
\<close>

definition sync_args :: "jsval \<Rightarrow> error + (jsval \<times> jsval \<times> jsval)" where
  "sync_args thisSync =
     (case js_path thisSync [''usersync'', ''type''] of
        Inl e \<Rightarrow> Inl e
      | Inr type \<Rightarrow>
          (case js_path thisSync [''usersync'', ''url''] of
             Inl e \<Rightarrow> Inl e
           | Inr url \<Rightarrow>
               (case js_get thisSync ''bidder'' of
                  Inl e \<Rightarrow> Inl e
                | Inr bidder \<Rightarrow> Inr (type, url, bidder))))"

text \<open>
  The continuation handed to \<^verbatim>\<open>doBidderSync\<close> is \<^verbatim>\<open>doAllSyncs.bind(null, bidders)\<close>.
  \<open>resume r bidders next\<close> is the run after \<^verbatim>\<open>doBidderSync\<close> returned \<open>r\<close>, where \<open>next\<close> is the
  run of \<^verbatim>\<open>doAllSyncs(bidders)\<close>: it happens inside the call when \<^verbatim>\<open>done\<close> was called there,
  and it is put off to the event of the transport otherwise.
\<close>

definition resume ::
  "effect list \<times> continuation \<Rightarrow> jsval \<Rightarrow> effect list \<times> chain \<Rightarrow> effect list \<times> chain" where
  "resume r bidders next =
     (case snd r of
        Called \<Rightarrow> and_then (fst r) next
      | OnImage \<Rightarrow> (fst r, Waiting bidders)
      | OnIframe \<Rightarrow> (fst r, Waiting bidders)
      | Dropped \<Rightarrow> (fst r, Stalled))"

text \<open>
  \<^verbatim>\<open>doAllSyncs(bidders)\<close>. On an array, \<^verbatim>\<open>pop\<close> takes the last element. A value that is no
  array has no \<^verbatim>\<open>pop\<close>: unless its \<^verbatim>\<open>length\<close> is \<open>0\<close>, calling it throws a TypeError.
\<close>

function (sequential) doAllSyncs :: "jsval \<Rightarrow> effect list \<times> chain" where
  "doAllSyncs (JArr bs) =
     (if length bs = 0 then ([], Finished)
      else
        let thisSync = last bs; bidders = JArr (butlast bs) in
        case js_get thisSync ''no_cookie'' of
          Inl e \<Rightarrow> ([], Threw e)
        | Inr no_cookie \<Rightarrow>
            if truthy no_cookie then
              (case sync_args thisSync of
                 Inl e \<Rightarrow> ([], Threw e)
               | Inr (type, url, bidder) \<Rightarrow>
                   resume (doBidderSync type url bidder) bidders (doAllSyncs bidders))
            else doAllSyncs bidders)"
| "doAllSyncs v =
     (case js_get v ''length'' of
        Inl e \<Rightarrow> ([], Threw e)
      | Inr len \<Rightarrow> if len = JNum (Num 0) then ([], Finished) else ([], Threw TypeError))"
  by pat_completeness auto
termination
  by (relation "measure (\<lambda>v. case v of JArr bs \<Rightarrow> length bs | _ \<Rightarrow> 0)") auto

declare doAllSyncs.simps(1) [simp del]

text \<open>
  The body of a response is kept as what \<^verbatim>\<open>JSON.parse\<close> makes of it: a SyntaxError when
  it is no JSON text, the value it denotes otherwise.
\<close>

datatype response = Malformed | Parsed jsval

fun JSON_parse :: "response \<Rightarrow> error + jsval" where
  "JSON_parse Malformed = Inl SyntaxError"
| "JSON_parse (Parsed v) = Inr v"

definition process :: "response \<Rightarrow> effect list \<times> chain" where
  "process response =
     (case JSON_parse response of
        Inl e \<Rightarrow> ([], Threw e)
      | Inr result \<Rightarrow>
          (case js_get result ''status'' of
             Inl e \<Rightarrow> ([], Threw e)
           | Inr status \<Rightarrow>
               if status = JStr ''ok'' \<or> status = JStr ''no_cookie'' then
                 (case js_get result ''bidder_status'' of
                    Inl e \<Rightarrow> ([], Threw e)
                  | Inr bidder_status \<Rightarrow>
                      if truthy bidder_status then doAllSyncs bidder_status else ([], Finished))
               else ([], Finished)))"

text \<open>
  The \<^verbatim>\<open>onreadystatechange\<close> handler that \<^verbatim>\<open>ajax\<close> installs, with \<^verbatim>\<open>process\<close> as the success
  callback and the default error callback, which writes to the console. The handler runs
  from the event loop, after \<^verbatim>\<open>ajax\<close> and its \<^verbatim>\<open>try\<close> block have returned.
\<close>

definition onreadystatechange :: "int \<Rightarrow> int \<Rightarrow> string \<Rightarrow> response \<Rightarrow> effect list \<times> chain" where
  "onreadystatechange readyState status statusText responseText =
     (if readyState = 4 then
        if (200 \<le> status \<and> status < 300) \<or> status = 304 then process responseText
        else ([Log XhrError [statusText]], Finished)
      else ([], Finished))"


subsection \<open>The whole chain\<close>

text \<open>
  A started transport fires its event (an image \<^verbatim>\<open>load\<close> or \<^verbatim>\<open>error\<close>, an iframe \<^verbatim>\<open>load\<close>)
  and the event calls the continuation, which is the next run of \<^verbatim>\<open>doAllSyncs\<close> on the
  array the run before left. \<open>drain\<close> is the chain of these runs when every started
  transport fires its event. Each run that waits has taken an element off the array, which
  is why the chain is finite.
\<close>

definition alen :: "jsval \<Rightarrow> nat" where
  "alen v = (case v of JArr bs \<Rightarrow> length bs | _ \<Rightarrow> 0)"

lemma snd_and_then [simp]: "snd (and_then es r) = snd r"
  by (simp add: and_then_def)

lemma fst_and_then [simp]: "fst (and_then es r) = es @ fst r"
  by (simp add: and_then_def)

lemma snd_resume:
  "snd (resume r b nxt) = Waiting w \<Longrightarrow> w = b \<or> (snd r = Called \<and> snd nxt = Waiting w)"
  by (cases "snd r") (simp_all add: resume_def)

lemma doAllSyncs_Waiting: "snd (doAllSyncs v) = Waiting w \<Longrightarrow> alen w < alen v"
proof (induction v rule: doAllSyncs.induct)
  case (1 bs)
  show ?case
  proof (cases "length bs = 0")
    case True
    with "1.prems" show ?thesis by (simp add: doAllSyncs.simps(1))
  next
    case False
    then have less: "alen (JArr (butlast bs)) < alen (JArr bs)"
      by (simp add: alen_def)
    obtain nc where nc: "js_get (last bs) ''no_cookie'' = Inr nc"
      using "1.prems" False
      by (cases "js_get (last bs) ''no_cookie''") (simp_all add: doAllSyncs.simps(1))
    show ?thesis
    proof (cases "truthy nc")
      case True
      obtain t u b where args: "sync_args (last bs) = Inr (t, u, b)"
        using "1.prems" False nc True
        by (cases "sync_args (last bs)") (auto simp add: doAllSyncs.simps(1))
      from "1.prems" False nc True args
      have "snd (resume (doBidderSync t u b) (JArr (butlast bs)) (doAllSyncs (JArr (butlast bs))))
              = Waiting w"
        by (simp add: doAllSyncs.simps(1))
      from snd_resume[OF this] "1.IH"(1)[OF False refl refl nc True args refl] less
      show ?thesis by auto
    next
      case nt: False
      from "1.prems" False nc nt have "snd (doAllSyncs (JArr (butlast bs))) = Waiting w"
        by (simp add: doAllSyncs.simps(1))
      from "1.IH"(2)[OF False refl refl nc nt this] less show ?thesis by simp
    qed
  qed
qed (auto split: sum.splits if_splits)

function drain :: "jsval \<Rightarrow> effect list \<times> chain" where
  "drain bidders =
     (case snd (doAllSyncs bidders) of
        Waiting rest \<Rightarrow> and_then (fst (doAllSyncs bidders)) (drain rest)
      | c \<Rightarrow> doAllSyncs bidders)"
  by pat_completeness auto
termination
  by (relation "measure alen") (auto dest: doAllSyncs_Waiting)

declare drain.simps [simp del]

text \<open>
  The bidder records of a response, as the data model has them: a name, the \<^verbatim>\<open>no_cookie\<close>
  flag, and the \<^verbatim>\<open>usersync\<close> object with its type and, when there is one, its URL.
\<close>

record bidder_status =
  b_bidder :: string
  b_no_cookie :: bool
  b_type :: string
  b_url :: "string option"

definition url_json :: "bidder_status \<Rightarrow> jsval" where
  "url_json b = (case b_url b of None \<Rightarrow> JUndefined | Some u \<Rightarrow> JStr u)"

definition bidder_json :: "bidder_status \<Rightarrow> jsval" where
  "bidder_json b =
     JObj [(''bidder'', JStr (b_bidder b)), (''no_cookie'', JBool (b_no_cookie b)),
           (''usersync'',
            JObj ((''type'', JStr (b_type b)) #
                  (case b_url b of None \<Rightarrow> [] | Some u \<Rightarrow> [(''url'', JStr u)])))]"

text \<open>The effects of the one call of \<^verbatim>\<open>doBidderSync\<close> for a bidder record.\<close>

definition bidder_effects :: "bidder_status \<Rightarrow> effect list" where
  "bidder_effects b = fst (doBidderSync (JStr (b_type b)) (url_json b) (JStr (b_bidder b)))"

definition is_transport :: "effect \<Rightarrow> bool" where
  "is_transport e = (case e of Pixel u \<Rightarrow> True | Iframe u b \<Rightarrow> True | _ \<Rightarrow> False)"

section \<open>Page parameters\<close>

text \<open>
  \<^verbatim>\<open>parseInt(string, 10)\<close>: leading white space is dropped, a sign is read, and the longest
  run of decimal digits that follows is the value; with no digit the result is \<^verbatim>\<open>NaN\<close>.
  The argument is converted to a string first. The script also calls \<^verbatim>\<open>parseInt\<close> with one
  argument, on strings of digits only, which are read in base 10 as well.
\<close>

definition digits_val :: "string \<Rightarrow> int" where
  "digits_val Z = foldl (\<lambda>a c. 10 * a + digit_val c) 0 Z"

definition parseInt :: "jsval \<Rightarrow> number" where
  "parseInt v =
     (let S = dropWhile is_space (ToString v);
          sign = (if S \<noteq> [] \<and> hd S = CHR ''-'' then - 1 else 1);
          S = (if S \<noteq> [] \<and> (hd S = CHR ''+'' \<or> hd S = CHR ''-'') then tl S else S);
          Z = takeWhile is_digit S
      in if Z = [] then NaN else Num (sign * digits_val Z))"

definition isNaN :: "number \<Rightarrow> bool" where
  "isNaN x = (x = NaN)"

text \<open>\<^verbatim>\<open>x < n\<close> and \<^verbatim>\<open>x === y\<close> on numbers: both are false when a side is \<^verbatim>\<open>NaN\<close>.\<close>

definition less_than :: "number \<Rightarrow> int \<Rightarrow> bool" where
  "less_than x n = (case x of NaN \<Rightarrow> False | Num m \<Rightarrow> m < n)"

definition strict_eq :: "number \<Rightarrow> number \<Rightarrow> bool" where
  "strict_eq x y = (x \<noteq> NaN \<and> x = y)"

definition VALID_ENDPOINTS :: "(string \<times> string) list" where
  "VALID_ENDPOINTS =
     [(''rubicon'', ''https://prebid-server.rubiconproject.com/cookie_sync''),
      (''appnexus'', ''https://prebid.adnxs.com/pbs/v1/cookie_sync'')]"

definition sanitizeEndpoint :: "string \<Rightarrow> string" where
  "sanitizeEndpoint value =
     (if value \<noteq> [] \<and> map_of VALID_ENDPOINTS value \<noteq> None then the (map_of VALID_ENDPOINTS value)
      else ''https://prebid.adnxs.com/pbs/v1/cookie_sync'')"

text \<open>\<^verbatim>\<open>String.prototype.split\<close> with a one-character separator.\<close>

fun split :: "char \<Rightarrow> string \<Rightarrow> string list" where
  "split sep [] = [[]]"
| "split sep (c # cs) =
     (if c = sep then [] # split sep cs
      else (case split sep cs of [] \<Rightarrow> [[c]] | w # ws \<Rightarrow> (c # w) # ws))"

text \<open>
  The reducer of \<^verbatim>\<open>sanitizeEndpointArgs\<close>. Assigning a string or a number to the key
  \<^verbatim>\<open>__proto__\<close> of a plain object creates no property.
\<close>

definition add_arg :: "(string \<times> jsval) list \<Rightarrow> string \<Rightarrow> (string \<times> jsval) list" where
  "add_arg keyValues key =
     (let keyValue = split CHR '':'' key in
      if length keyValue = 2 \<and> keyValue ! 0 \<noteq> [] \<and> keyValue ! 1 \<noteq> [] then
        if keyValue ! 0 = ''__proto__'' then keyValues
        else AList.update (keyValue ! 0)
               (if list_all is_digit (keyValue ! 1) then JNum (parseInt (JStr (keyValue ! 1)))
                else JStr (keyValue ! 1))
               keyValues
      else keyValues)"

definition sanitizeEndpointArgs :: "string \<Rightarrow> (string \<times> jsval) list option" where
  "sanitizeEndpointArgs value =
     (if value \<noteq> [] then
        let argProperties = foldl add_arg [] (split CHR '','' value)
        in if length argProperties \<noteq> 0 then Some argProperties else None
      else None)"

definition sanitizeSyncCount :: "number \<Rightarrow> number" where
  "sanitizeSyncCount value =
     (if isNaN value \<or> less_than value 0 then Num 9007199254740991 else value)"

definition sanitizeScope :: "number \<Rightarrow> number" where
  "sanitizeScope value = (if strict_eq value (Num 0) \<or> strict_eq value (Num 1) then value else Num 1)"

definition sanitizeTimeout :: "number \<Rightarrow> number" where
  "sanitizeTimeout value =
     (if \<not> isNaN value \<and> strict_eq value (parseInt (JNum value)) then value else Num 10000)"

text \<open>
  The five query parameters, each as \<^verbatim>\<open>parseQueryParam\<close> returns it: the text after
  \<^verbatim>\<open>name=\<close>, or the empty string when the page address has no such parameter (line 163).
  The constants of lines 17 to 22 are functions of them.
\<close>

record query =
  q_endpoint :: string
  q_args :: string
  q_max_sync_count :: string
  q_timeout :: string
  q_defaultGdprScope :: string

record config =
  ENDPOINT :: string
  ENDPOINT_ARGS :: "(string \<times> jsval) list option"
  MAX_SYNC_COUNT :: number
  TIMEOUT :: number
  DEFAULT_GDPR_SCOPE :: number

definition max_sync_count_of :: "string \<Rightarrow> number" where
  "max_sync_count_of maxSyncCountParam =
     sanitizeSyncCount
       (parseInt (if maxSyncCountParam \<noteq> [] then JStr maxSyncCountParam else JNum (Num 10)))"

definition configure :: "query \<Rightarrow> config" where
  "configure q =
     \<lparr>ENDPOINT = sanitizeEndpoint (q_endpoint q),
      ENDPOINT_ARGS = sanitizeEndpointArgs (q_args q),
      MAX_SYNC_COUNT = max_sync_count_of (q_max_sync_count q),
      TIMEOUT = sanitizeTimeout (parseInt (JStr (q_timeout q))),
      DEFAULT_GDPR_SCOPE = sanitizeScope (parseInt (JStr (q_defaultGdprScope q)))\<rparr>"


section \<open>The request and the consent gate\<close>

text \<open>
  \<^verbatim>\<open>attachConsent(data)\<close> reads the global \<^verbatim>\<open>consent\<close>, which is \<^verbatim>\<open>{}\<close> until a consent
  message has been stored.
\<close>

definition attachConsent ::
  "jsval \<Rightarrow> (string \<times> jsval) list \<Rightarrow> error + (string \<times> jsval) list" where
  "attachConsent consent data =
     (case js_get consent ''consentMetadata'' of
        Inl e \<Rightarrow> Inl e
      | Inr consentMetadata \<Rightarrow>
          if truthy consentMetadata then
            (case js_get consentMetadata ''gdprApplies'' of
               Inl e \<Rightarrow> Inl e
             | Inr gdprApplies \<Rightarrow>
                 if truthy gdprApplies then
                   (case js_get consent ''consentString'' of
                      Inl e \<Rightarrow> Inl e
                    | Inr consentString \<Rightarrow>
                        Inr (AList.update ''gdpr_consent''
                               (if truthy consentString then consentString else JStr [])
                               (AList.update ''gdpr'' (JNum (Num 1)) data)))
                 else Inr (AList.update ''gdpr'' (JNum (Num 0)) data))
          else Inr data)"

text \<open>
  \<^verbatim>\<open>getStringifiedData(ENDPOINT_ARGS)\<close>. The endpoint arguments are an object or
  \<^verbatim>\<open>undefined\<close>, so the test of line 240 takes the object when there is one. The payload is
  kept as the object that \<^verbatim>\<open>JSON.stringify\<close> is applied to; its fields are the fields of the
  text, since none of its values is \<^verbatim>\<open>undefined\<close>.
\<close>

definition getStringifiedData :: "config \<Rightarrow> jsval \<Rightarrow> error + payload" where
  "getStringifiedData cfg consent =
     (let data = (case ENDPOINT_ARGS cfg of Some endPointArgs \<Rightarrow> endPointArgs | None \<Rightarrow> []);
          data = AList.update ''limit'' (JNum (MAX_SYNC_COUNT cfg)) data
      in case attachConsent consent data of
           Inl e \<Rightarrow> Inl e
         | Inr data \<Rightarrow> Inr (JSON_stringify data))"

text \<open>
  The state of a page load: the two globals \<^verbatim>\<open>consent\<close> and \<^verbatim>\<open>syncRan\<close>, whether the timeout
  of line 255 is still set, whether a request is on its way, the array bound in the
  continuation that a started transport holds, and the effects so far.
\<close>

record page =
  consent :: jsval
  syncRan :: bool
  timerSet :: bool
  requested :: bool
  waiting :: "jsval option"
  trace :: "effect list"

definition emit :: "effect list \<Rightarrow> page \<Rightarrow> page" where
  "emit es s = s\<lparr>trace := trace s @ es\<rparr>"

text \<open>
  \<^verbatim>\<open>ajax(url, process, data, {withCredentials: true})\<close> sends the one request; \<^verbatim>\<open>data\<close> is
  a non-empty string, so the method is \<^verbatim>\<open>POST\<close> and the body is \<^verbatim>\<open>data\<close>. Its \<^verbatim>\<open>try\<close> block
  covers the construction of the request only. \<^verbatim>\<open>init\<close> sets the flag first; an exception
  while its argument is computed leaves \<^verbatim>\<open>init\<close> with the flag set.
\<close>

definition ajax :: "string \<Rightarrow> payload \<Rightarrow> page \<Rightarrow> page" where
  "ajax url data s = (emit [XhrSend url data] s)\<lparr>requested := True\<rparr>"

definition init :: "config \<Rightarrow> page \<Rightarrow> page \<times> error option" where
  "init cfg s =
     (let s = s\<lparr>syncRan := True\<rparr> in
      case getStringifiedData cfg (consent s) of
        Inl e \<Rightarrow> (s, Some e)
      | Inr data \<Rightarrow> (ajax (ENDPOINT cfg) data s, None))"

text \<open>The function given to \<^verbatim>\<open>setTimeout\<close> in line 255.\<close>

definition timeout_handler :: "config \<Rightarrow> page \<Rightarrow> page \<times> error option" where
  "timeout_handler cfg s =
     (if \<not> syncRan s then
        case (if \<not> truthy (JNum (DEFAULT_GDPR_SCOPE cfg)) then init cfg s else (s, None)) of
          (s, Some e) \<Rightarrow> (s, Some e)
        | (s, None) \<Rightarrow> (emit [Log TimedOut []] s, None)
      else (s, None))"

text \<open>The \<^verbatim>\<open>message\<close> listener of line 262; \<open>data\<close> is \<^verbatim>\<open>event.data\<close>.\<close>

definition message_listener :: "config \<Rightarrow> jsval \<Rightarrow> page \<Rightarrow> page \<times> error option" where
  "message_listener cfg data s =
     (case js_get data ''type'' of
        Inl e \<Rightarrow> (s, Some e)
      | Inr type \<Rightarrow>
          if type = JStr ''consent-data'' then
            let s = s\<lparr>consent := data, timerSet := False\<rparr>
            in if \<not> syncRan s then init cfg s else (s, None)
          else (s, None))"

text \<open>
  A run of the dispatcher from an event handler: its effects, the array a started transport
  waits with, and the exception it threw, which nothing catches.
\<close>

definition dispatched :: "effect list \<times> chain \<Rightarrow> page \<Rightarrow> page \<times> error option" where
  "dispatched r s =
     ((emit (fst r) s)\<lparr>waiting := (case snd r of Waiting bidders \<Rightarrow> Some bidders | _ \<Rightarrow> None)\<rparr>,
      (case snd r of Threw e \<Rightarrow> Some e | _ \<Rightarrow> None))"

text \<open>
  The events of a page load: the timeout fires; a message arrives; the request changes its
  ready state; a started transport fires its event. The browser runs the handler of the
  timeout only while the timeout is set, that of the request only when a request was made,
  and the continuation of a transport only when one is held. An exception that a handler
  throws reaches the global error handler of the page.
\<close>

datatype event =
    TimerFired
  | Message jsval
  | ReadyState int int string response
  | TransportFired

definition handle :: "config \<Rightarrow> page \<Rightarrow> event \<Rightarrow> page \<times> error option" where
  "handle cfg s ev =
     (case ev of
        TimerFired \<Rightarrow>
          if timerSet s then timeout_handler cfg (s\<lparr>timerSet := False\<rparr>) else (s, None)
      | Message data \<Rightarrow> message_listener cfg data s
      | ReadyState readyState status statusText responseText \<Rightarrow>
          if requested s then
            dispatched (onreadystatechange readyState status statusText responseText)
              (s\<lparr>requested := (readyState \<noteq> 4)\<rparr>)
          else (s, None)
      | TransportFired \<Rightarrow>
          (case waiting s of
             Some bidders \<Rightarrow> dispatched (doAllSyncs bidders) s
           | None \<Rightarrow> (s, None)))"

definition step :: "config \<Rightarrow> page \<Rightarrow> event \<Rightarrow> page" where
  "step cfg s ev =
     (case handle cfg s ev of
        (s, None) \<Rightarrow> s
      | (s, Some e) \<Rightarrow> emit [Uncaught e] s)"

definition run :: "config \<Rightarrow> page \<Rightarrow> event list \<Rightarrow> page" where
  "run cfg s evs = foldl (step cfg) s evs"

text \<open>
  The page as the script leaves it when it has loaded: no consent, the flag down, the
  timeout set, and the announcement of line 273 posted to the parent.
\<close>

definition loaded :: page where
  "loaded =
     \<lparr>consent = JObj [], syncRan = False, timerSet = True, requested = False, waiting = None,
      trace = [PostMessage]\<rparr>"

definition is_request :: "effect \<Rightarrow> bool" where
  "is_request e = (case e of XhrSend url data \<Rightarrow> True | _ \<Rightarrow> False)"

definition requests :: "page \<Rightarrow> effect list" where
  "requests s = filter is_request (trace s)"

definition transports :: "page \<Rightarrow> effect list" where
  "transports s = filter is_transport (trace s)"

definition is_consent_data :: "event \<Rightarrow> bool" where
  "is_consent_data ev =
     (case ev of Message data \<Rightarrow> js_get data ''type'' = Inr (JStr ''consent-data'') | _ \<Rightarrow> False)"

text \<open>
  What the flag \<^verbatim>\<open>syncRan\<close> keeps true of a page: at most one request was sent, and none
  while the flag is down.
\<close>

definition at_most_once :: "page \<Rightarrow> bool" where
  "at_most_once s = (length (requests s) \<le> 1 \<and> (syncRan s \<or> requests s = []))"

text \<open>
  Two more conditions on a page. \<open>unfired\<close>: the flag is down and no request was sent.
  \<open>idle\<close>: moreover no consent was stored and the timeout is still set.
\<close>

definition unfired :: "page \<Rightarrow> bool" where
  "unfired s = (syncRan s = False \<and> requests s = [])"

definition idle :: "page \<Rightarrow> bool" where
  "idle s = (syncRan s = False \<and> requests s = [] \<and> consent s = JObj [] \<and> timerSet s = True)"

subsection \<open>The page without its requests\<close>

text \<open>
  \<open>quiet s\<close> is the page \<open>s\<close> with the requests taken out of its effects. The functions
  that follow are the handlers as they act on such a page; none of them has the
  configuration as an argument, but for the default scope that the timeout reads.
  \<open>payload_error\<close> is the exception that building the payload throws, which depends on the
  stored consent only.
\<close>

definition quiet :: "page \<Rightarrow> page" where
  "quiet s = s\<lparr>trace := filter (\<lambda>e. \<not> is_request e) (trace s)\<rparr>"

definition payload_error :: "jsval \<Rightarrow> error option" where
  "payload_error c = (case attachConsent c [] of Inl e \<Rightarrow> Some e | Inr x \<Rightarrow> None)"

definition fired :: "jsval \<Rightarrow> page \<Rightarrow> page" where
  "fired c q =
     (case payload_error c of
        Some e \<Rightarrow> q\<lparr>syncRan := True\<rparr>
      | None \<Rightarrow> q\<lparr>syncRan := True, requested := True\<rparr>)"

definition timeout_q :: "number \<Rightarrow> page \<Rightarrow> page" where
  "timeout_q scope q =
     (if \<not> syncRan q then
        if \<not> truthy (JNum scope) then
          (case payload_error (consent q) of
             Some e \<Rightarrow> fired (consent q) q
           | None \<Rightarrow> emit [Log TimedOut []] (fired (consent q) q))
        else emit [Log TimedOut []] q
      else q)"

definition message_q :: "jsval \<Rightarrow> page \<Rightarrow> page" where
  "message_q d q =
     (if js_get d ''type'' = Inr (JStr ''consent-data'') then
        if \<not> syncRan q then fired d (q\<lparr>consent := d, timerSet := False\<rparr>)
        else q\<lparr>consent := d, timerSet := False\<rparr>
      else q)"

definition handle_q :: "number \<Rightarrow> page \<Rightarrow> event \<Rightarrow> page" where
  "handle_q scope q ev =
     (case ev of
        TimerFired \<Rightarrow> if timerSet q then timeout_q scope (q\<lparr>timerSet := False\<rparr>) else q
      | Message d \<Rightarrow> message_q d q
      | ReadyState rs st tx r \<Rightarrow>
          if requested q then
            fst (dispatched (filter (\<lambda>e. \<not> is_request e) (fst (onreadystatechange rs st tx r)),
                             snd (onreadystatechange rs st tx r))
                   (q\<lparr>requested := (rs \<noteq> 4)\<rparr>))
          else q
      | TransportFired \<Rightarrow>
          (case waiting q of
             Some bidders \<Rightarrow>
               fst (dispatched (filter (\<lambda>e. \<not> is_request e) (fst (doAllSyncs bidders)),
                                snd (doAllSyncs bidders)) q)
           | None \<Rightarrow> q))"

definition error_q :: "number \<Rightarrow> page \<Rightarrow> event \<Rightarrow> error option" where
  "error_q scope q ev =
     (case ev of
        TimerFired \<Rightarrow>
          if timerSet q \<and> \<not> syncRan q \<and> \<not> truthy (JNum scope) then payload_error (consent q)
          else None
      | Message d \<Rightarrow>
          (case js_get d ''type'' of
             Inl e \<Rightarrow> Some e
           | Inr t \<Rightarrow> if t = JStr ''consent-data'' \<and> \<not> syncRan q then payload_error d else None)
      | ReadyState rs st tx r \<Rightarrow>
          if requested q then snd (dispatched (onreadystatechange rs st tx r) q) else None
      | TransportFired \<Rightarrow>
          (case waiting q of Some bidders \<Rightarrow> snd (dispatched (doAllSyncs bidders) q) | None \<Rightarrow> None))"

section \<open>Numbers read back from their digits\<close>





















section \<open>The dispatcher\<close>

lemma and_then_assoc [simp]: "and_then es (and_then es' r) = and_then (es @ es') r"
  by (simp add: and_then_def)

lemma and_then_pair: "and_then es (es', c) = (es @ es', c)"
  by (simp add: and_then_def)

lemma snd_log_then [simp]: "snd (log_then e r) = snd r"
  by (simp add: log_then_def)

lemma fst_log_then [simp]: "fst (log_then e r) = e # fst r"
  by (simp add: log_then_def)

lemma doBidderSync_no_request: "filter is_request (fst (doBidderSync t u b)) = []"
  by (simp add: doBidderSync_def triggerPixel_def triggerIframeLoad_def is_request_def)

lemma doBidderSync_not_Dropped: "snd (doBidderSync type url bidder) \<noteq> Dropped"
  by (simp add: doBidderSync_def triggerIframeLoad_def triggerPixel_def)

text \<open>A run on an array whose last element is \<open>x\<close>, and the three ways it can go on.\<close>

lemma doAllSyncs_snoc:
  "doAllSyncs (JArr (xs @ [x])) =
     (case js_get x ''no_cookie'' of
        Inl e \<Rightarrow> ([], Threw e)
      | Inr nc \<Rightarrow>
          if truthy nc then
            (case sync_args x of
               Inl e \<Rightarrow> ([], Threw e)
             | Inr (t, u, b) \<Rightarrow> resume (doBidderSync t u b) (JArr xs) (doAllSyncs (JArr xs)))
          else doAllSyncs (JArr xs))"
  by (simp add: doAllSyncs.simps(1) Let_def)

lemma doAllSyncs_snoc_cases:
  "(\<exists>e. doAllSyncs (JArr (xs @ [x])) = ([], Threw e))
   \<or> (\<exists>t u b. doAllSyncs (JArr (xs @ [x]))
          = resume (doBidderSync t u b) (JArr xs) (doAllSyncs (JArr xs)))
   \<or> doAllSyncs (JArr (xs @ [x])) = doAllSyncs (JArr xs)"
proof (cases "js_get x ''no_cookie''")
  case (Inl e)
  then show ?thesis by (simp add: doAllSyncs_snoc)
next
  case (Inr nc)
  show ?thesis
  proof (cases "truthy nc")
    case False
    with Inr show ?thesis by (simp add: doAllSyncs_snoc)
  next
    case True
    show ?thesis
    proof (cases "sync_args x")
      case (Inl e)
      with Inr True show ?thesis by (simp add: doAllSyncs_snoc)
    next
      case args: (Inr a)
      obtain t u b where "a = (t, u, b)" by (cases a) auto
      with Inr True args have
        "doAllSyncs (JArr (xs @ [x])) = resume (doBidderSync t u b) (JArr xs) (doAllSyncs (JArr xs))"
        by (simp add: doAllSyncs_snoc)
      then show ?thesis by blast
    qed
  qed
qed

lemma doAllSyncs_other:
  "(\<And>bs. v \<noteq> JArr bs) \<Longrightarrow> doAllSyncs v = ([], Finished) \<or> (\<exists>e. doAllSyncs v = ([], Threw e))"
  by (cases v) (auto split: sum.splits)

text \<open>
  A property of every result of \<^verbatim>\<open>doAllSyncs\<close>: it holds of the two results without effects
  and is kept by the call of \<^verbatim>\<open>doBidderSync\<close> in front of a run.
\<close>

lemma doAllSyncs_every:
  assumes thrown: "\<And>e. P ([], Threw e)"
    and finished: "P ([], Finished)"
    and resumed: "\<And>t u b w r. P r \<Longrightarrow> P (resume (doBidderSync t u b) w r)"
  shows "P (doAllSyncs v)"
proof (cases "\<exists>bs. v = JArr bs")
  case False
  with doAllSyncs_other[of v] thrown finished show ?thesis by auto
next
  case True
  then obtain bs where v: "v = JArr bs" by blast
  have "P (doAllSyncs (JArr bs))"
  proof (induction bs rule: rev_induct)
    case Nil
    show ?case by (simp add: doAllSyncs.simps(1) finished)
  next
    case (snoc x xs)
    from doAllSyncs_snoc_cases[of xs x] show ?case
    proof (elim disjE exE)
      fix e assume "doAllSyncs (JArr (xs @ [x])) = ([], Threw e)"
      with thrown show ?thesis by simp
    next
      fix t u b
      assume "doAllSyncs (JArr (xs @ [x]))
                = resume (doBidderSync t u b) (JArr xs) (doAllSyncs (JArr xs))"
      with resumed[OF snoc.IH] show ?thesis by simp
    next
      assume "doAllSyncs (JArr (xs @ [x])) = doAllSyncs (JArr xs)"
      with snoc.IH show ?thesis by simp
    qed
  qed
  with v show ?thesis by simp
qed

lemma doAllSyncs_no_request: "filter is_request (fst (doAllSyncs v)) = []"
proof (rule doAllSyncs_every[where P = "\<lambda>r. filter is_request (fst r) = []"])
  fix t u b w and r :: "effect list \<times> chain"
  assume "filter is_request (fst r) = []"
  then show "filter is_request (fst (resume (doBidderSync t u b) w r)) = []"
    by (cases "snd (doBidderSync t u b)") (simp_all add: resume_def doBidderSync_no_request)
qed simp_all

lemma doAllSyncs_not_Stalled: "snd (doAllSyncs v) \<noteq> Stalled"
proof (rule doAllSyncs_every[where P = "\<lambda>r. snd r \<noteq> Stalled"])
  fix t u b w and r :: "effect list \<times> chain"
  assume "snd r \<noteq> Stalled"
  then show "snd (resume (doBidderSync t u b) w r) \<noteq> Stalled"
    using doBidderSync_not_Dropped[of t u b]
    by (cases "snd (doBidderSync t u b)") (simp_all add: resume_def)
qed simp_all

lemma drain_not_Stalled: "snd (drain v) \<noteq> Stalled"
proof (induction v rule: drain.induct)
  case (1 bidders)
  show ?case
  proof (cases "snd (doAllSyncs bidders)")
    case (Waiting rest)
    with "1.IH"[of rest] show ?thesis by (simp add: drain.simps[of bidders])
  qed (use doAllSyncs_not_Stalled[of bidders] in \<open>simp_all add: drain.simps[of bidders]\<close>)
qed

subsection \<open>Bidder records\<close>

lemma sync_args_bidder_json:
  "sync_args (bidder_json b) = Inr (JStr (b_type b), url_json b, JStr (b_bidder b))"
  by (simp add: sync_args_def bidder_json_def url_json_def split: option.splits)

lemma no_cookie_bidder_json: "js_get (bidder_json b) ''no_cookie'' = Inr (JBool (b_no_cookie b))"
  by (simp add: bidder_json_def)

lemma doAllSyncs_bidder:
  "doAllSyncs (JArr (vs @ [bidder_json b])) =
     (if b_no_cookie b
      then resume (doBidderSync (JStr (b_type b)) (url_json b) (JStr (b_bidder b))) (JArr vs)
             (doAllSyncs (JArr vs))
      else doAllSyncs (JArr vs))"
  by (simp add: doAllSyncs_snoc sync_args_bidder_json no_cookie_bidder_json)

lemma drain_and_then:
  "doAllSyncs v = and_then es (doAllSyncs w) \<Longrightarrow> drain v = and_then es (drain w)"
  by (cases "snd (doAllSyncs w)") (simp_all add: drain.simps[of v] drain.simps[of w])

lemma drain_Waiting: "doAllSyncs v = (es, Waiting w) \<Longrightarrow> drain v = and_then es (drain w)"
  by (simp add: drain.simps[of v])

lemma drain_Nil: "drain (JArr []) = ([], Finished)"
  by (simp add: drain.simps[of "JArr []"] doAllSyncs.simps(1))

lemma drain_bidder:
  "drain (JArr (vs @ [bidder_json b])) =
     (if b_no_cookie b then and_then (bidder_effects b) (drain (JArr vs)) else drain (JArr vs))"
proof (cases "b_no_cookie b")
  case False
  then have "doAllSyncs (JArr (vs @ [bidder_json b])) = doAllSyncs (JArr vs)"
    by (simp add: doAllSyncs_bidder)
  then have "doAllSyncs (JArr (vs @ [bidder_json b])) = and_then [] (doAllSyncs (JArr vs))"
    by (simp add: and_then_def)
  then have "drain (JArr (vs @ [bidder_json b])) = and_then [] (drain (JArr vs))"
    by (rule drain_and_then)
  then have "drain (JArr (vs @ [bidder_json b])) = drain (JArr vs)"
    by (simp add: and_then_def)
  with False show ?thesis by simp
next
  case True
  let ?r = "doBidderSync (JStr (b_type b)) (url_json b) (JStr (b_bidder b))"
  have run: "doAllSyncs (JArr (vs @ [bidder_json b])) = resume ?r (JArr vs) (doAllSyncs (JArr vs))"
    using True by (simp add: doAllSyncs_bidder)
  have "drain (JArr (vs @ [bidder_json b])) = and_then (fst ?r) (drain (JArr vs))"
  proof (cases "snd ?r")
    case Called
    with run have
      "doAllSyncs (JArr (vs @ [bidder_json b])) = and_then (fst ?r) (doAllSyncs (JArr vs))"
      by (simp add: resume_def)
    then show ?thesis by (rule drain_and_then)
  next
    case OnImage
    with run have "doAllSyncs (JArr (vs @ [bidder_json b])) = (fst ?r, Waiting (JArr vs))"
      by (simp add: resume_def)
    then show ?thesis by (rule drain_Waiting)
  next
    case OnIframe
    with run have "doAllSyncs (JArr (vs @ [bidder_json b])) = (fst ?r, Waiting (JArr vs))"
      by (simp add: resume_def)
    then show ?thesis by (rule drain_Waiting)
  next
    case Dropped
    with doBidderSync_not_Dropped show ?thesis by blast
  qed
  with True show ?thesis by (simp add: bidder_effects_def)
qed

lemma valid_x_test: "isValidUrl_test (JStr ''https://x.test/sync'')"
  by code_simp






text \<open>
  The validator reads the text between \<^verbatim>\<open>//\<close> and an \<^verbatim>\<open>@\<close> as user information, whatever
  it holds, and the host after it. The lookaheads look at the host it reads.
\<close>

lemma valid_after_userinfo: "isValidUrl_test (JStr ''http://10.1.2.3/x@example.com'')"
  by code_simp

text \<open>
  Claim C6. Handed the list of bidder records of a response, the dispatcher takes them from
  the tail: when every started transport fires its event, the effects of the whole chain are
  those of one call of \<^verbatim>\<open>doBidderSync\<close> for each record whose \<^verbatim>\<open>no_cookie\<close> is true, in the
  reverse of the order of the list, and nothing for a record whose \<^verbatim>\<open>no_cookie\<close> is false; the
  chain ends with the list empty. For the list of bidder \<^verbatim>\<open>a\<close> (no cookie, an image sync with
  a valid URL) and bidder \<^verbatim>\<open>b\<close> (a cookie), the chain loads one pixel, for \<^verbatim>\<open>a\<close>.
\<close>

theorem dispatcher_reverse_once:
  "drain (JArr (map bidder_json bs)) =
     (concat (map bidder_effects (rev (filter b_no_cookie bs))), Finished)"
proof (induction bs rule: rev_induct)
  case Nil
  show ?case by (simp add: drain_Nil)
next
  case (snoc b bs)
  then show ?case by (simp add: drain_bidder and_then_pair)
qed

theorem dispatcher_example:
  "drain (JArr (map bidder_json
      [\<lparr>b_bidder = ''a'', b_no_cookie = True, b_type = ''image'',
         b_url = Some ''https://x.test/sync''\<rparr>,
       \<lparr>b_bidder = ''b'', b_no_cookie = False, b_type = ''image'',
         b_url = Some ''https://x.test/sync''\<rparr>]))
   = ([Log ImageSync [''a''], Pixel ''https://x.test/sync''], Finished)"
  using dispatcher_reverse_once [of
      "[\<lparr>b_bidder = ''a'', b_no_cookie = True, b_type = ''image'',
          b_url = Some ''https://x.test/sync''\<rparr>,
        \<lparr>b_bidder = ''b'', b_no_cookie = False, b_type = ''image'',
          b_url = Some ''https://x.test/sync''\<rparr>]"]
  by (simp add: bidder_effects_def url_json_def doBidderSync_def valid_x_test triggerPixel_def)



text \<open>
  Claim C9. \<^verbatim>\<open>triggerIframeLoad\<close> drops the continuation only when its URL is falsy. With a
  falsy URL \<^verbatim>\<open>doBidderSync\<close> takes its first branch and calls the continuation, so it never
  returns with the continuation dropped, and neither a run of \<^verbatim>\<open>doAllSyncs\<close> nor the whole
  chain stalls.
\<close>

theorem iframe_early_return_unreachable:
  "(snd (triggerIframeLoad url bidder) = Dropped) = (\<not> truthy url)
   \<and> (\<not> truthy url \<longrightarrow>
        doBidderSync type url bidder = ([Log NoValidUrl [ToString bidder, ToString url]], Called))
   \<and> snd (doBidderSync type url bidder) \<noteq> Dropped
   \<and> snd (doAllSyncs bidders) \<noteq> Stalled
   \<and> snd (drain bidders) \<noteq> Stalled"
proof -
  have dropped: "(snd (triggerIframeLoad url bidder) = Dropped) = (\<not> truthy url)"
    by (simp add: triggerIframeLoad_def)
  have first: "\<not> truthy url \<longrightarrow>
      doBidderSync type url bidder = ([Log NoValidUrl [ToString bidder, ToString url]], Called)"
    by (simp add: doBidderSync_def log_then_def)
  from dropped first show ?thesis
    using doBidderSync_not_Dropped[of type url bidder] doAllSyncs_not_Stalled[of bidders]
      drain_not_Stalled[of bidders]
    by blast
qed

theorem iframe_early_return_unreachable_witness:
  "snd (triggerIframeLoad JUndefined (JStr ''a'')) = Dropped
   \<and> doBidderSync (JStr ''iframe'') JUndefined (JStr ''a'')
       = ([Log NoValidUrl [''a'', ''undefined'']], Called)"
  using iframe_early_return_unreachable [of JUndefined "JStr ''a''" "JStr ''iframe''"]
  by simp

section \<open>The consent gate\<close>

lemma requests_emit [simp]: "requests (emit es s) = requests s @ filter is_request es"
  by (simp add: requests_def emit_def)

lemma syncRan_emit [simp]: "syncRan (emit es s) = syncRan s"
  by (simp add: emit_def)

lemma process_no_request: "filter is_request (fst (process r)) = []"
  by (cases r) (auto simp: process_def doAllSyncs_no_request split: sum.splits)

lemma onreadystatechange_no_request:
  "filter is_request (fst (onreadystatechange rs st tx r)) = []"
  by (simp add: onreadystatechange_def process_no_request is_request_def)

lemma requests_dispatched:
  "filter is_request (fst r) = [] \<Longrightarrow> requests (fst (dispatched r s)) = requests s"
  by (simp add: dispatched_def requests_def emit_def)

lemma syncRan_dispatched [simp]: "syncRan (fst (dispatched r s)) = syncRan s"
  by (simp add: dispatched_def emit_def)

lemma requests_upd [simp]:
  "requests (s\<lparr>syncRan := a\<rparr>) = requests s"
  "requests (s\<lparr>timerSet := b\<rparr>) = requests s"
  "requests (s\<lparr>requested := c\<rparr>) = requests s"
  "requests (s\<lparr>consent := d\<rparr>) = requests s"
  "requests (s\<lparr>waiting := w\<rparr>) = requests s"
  by (simp_all add: requests_def)

lemma init_flag: "syncRan (fst (init cfg s))"
  by (simp add: init_def ajax_def Let_def split: sum.splits)

lemma init_requests: "length (requests (fst (init cfg s))) \<le> Suc (length (requests s))"
  by (simp add: init_def ajax_def Let_def is_request_def split: sum.splits)

lemma timeout_handler_inv: "at_most_once s \<Longrightarrow> at_most_once (fst (timeout_handler cfg s))"
  using init_flag[of cfg s] init_requests[of cfg s]
  by (auto simp: at_most_once_def timeout_handler_def is_request_def
      split: prod.splits option.splits if_splits)

lemma message_listener_inv: "at_most_once s \<Longrightarrow> at_most_once (fst (message_listener cfg d s))"
  using init_flag[of cfg "s\<lparr>consent := d, timerSet := False\<rparr>"]
    init_requests[of cfg "s\<lparr>consent := d, timerSet := False\<rparr>"]
  by (auto simp: at_most_once_def message_listener_def Let_def split: sum.splits)

lemma at_most_once_upd [simp]:
  "at_most_once (s\<lparr>timerSet := b\<rparr>) = at_most_once s"
  "at_most_once (s\<lparr>requested := c\<rparr>) = at_most_once s"
  by (simp_all add: at_most_once_def)

lemma dispatched_inv:
  "filter is_request (fst r) = [] \<Longrightarrow> at_most_once s \<Longrightarrow> at_most_once (fst (dispatched r s))"
  by (simp add: at_most_once_def requests_dispatched)

lemma handle_inv: "at_most_once s \<Longrightarrow> at_most_once (fst (handle cfg s ev))"
  by (cases ev)
     (simp_all add: handle_def timeout_handler_inv message_listener_inv dispatched_inv
        onreadystatechange_no_request doAllSyncs_no_request split: option.splits)

lemma step_inv: "at_most_once s \<Longrightarrow> at_most_once (step cfg s ev)"
  using handle_inv[of s cfg ev]
  by (cases "handle cfg s ev")
     (auto simp: step_def at_most_once_def is_request_def split: option.splits)

lemma run_inv: "at_most_once s \<Longrightarrow> at_most_once (run cfg s evs)"
  unfolding run_def by (induction evs arbitrary: s) (simp_all add: step_inv)

lemma loaded_inv: "at_most_once loaded"
  by (simp add: at_most_once_def loaded_def requests_def is_request_def)

text \<open>
  Claim C1. The flag \<^verbatim>\<open>syncRan\<close> is false when the page has loaded; \<^verbatim>\<open>init\<close> sets it; with
  the flag set, neither the handler of the timeout nor the message listener sends a
  request. So whatever events arrive, in whatever order, a page load sends at most one
  request to the endpoint.
\<close>

theorem sync_requestor_at_most_once:
  "syncRan loaded = False
   \<and> syncRan (fst (init cfg s)) = True
   \<and> requests (fst (timeout_handler cfg (s\<lparr>syncRan := True\<rparr>))) = requests s
   \<and> requests (fst (message_listener cfg d (s\<lparr>syncRan := True\<rparr>))) = requests s
   \<and> length (requests (run cfg loaded evs)) \<le> 1"
proof -
  have "length (requests (run cfg loaded evs)) \<le> 1"
    using run_inv[OF loaded_inv, of cfg evs] by (simp add: at_most_once_def)
  moreover have "requests (fst (message_listener cfg d (s\<lparr>syncRan := True\<rparr>))) = requests s"
    by (simp add: message_listener_def Let_def split: sum.splits)
  moreover have "requests (fst (timeout_handler cfg (s\<lparr>syncRan := True\<rparr>))) = requests s"
    by (simp add: timeout_handler_def)
  ultimately show ?thesis
    by (simp add: init_flag loaded_def)
qed

subsection \<open>The timeout without consent\<close>


lemma js_get_truthy: "truthy v \<Longrightarrow> \<exists>w. js_get v k = Inr w"
  by (cases v) simp_all

lemma js_get_type_obj: "js_get m ''type'' = Inr (JStr t) \<Longrightarrow> \<exists>kvs. m = JObj kvs"
  by (cases m) (simp_all split: if_splits)

lemma attachConsent_obj: "\<exists>d. attachConsent (JObj kvs) data = Inr d"
proof (cases "truthy (case map_of kvs ''consentMetadata'' of None \<Rightarrow> JUndefined | Some v \<Rightarrow> v)")
  case False
  then show ?thesis by (simp add: attachConsent_def)
next
  case True
  from js_get_truthy[OF this, of "''gdprApplies''"] obtain w where
    "js_get (case map_of kvs ''consentMetadata'' of None \<Rightarrow> JUndefined | Some v \<Rightarrow> v) ''gdprApplies'' = Inr w"
    by blast
  with True show ?thesis by (simp add: attachConsent_def)
qed

lemma getStringifiedData_obj: "\<exists>d. getStringifiedData cfg (JObj kvs) = Inr (JSON_stringify d)"
proof -
  obtain d where
    "attachConsent (JObj kvs)
       (AList.update ''limit'' (JNum (MAX_SYNC_COUNT cfg))
          (case ENDPOINT_ARGS cfg of Some endPointArgs \<Rightarrow> endPointArgs | None \<Rightarrow> [])) = Inr d"
    using attachConsent_obj by blast
  then show ?thesis by (simp add: getStringifiedData_def Let_def)
qed

lemma init_fires:
  "requests s = [] \<Longrightarrow> consent s = JObj kvs \<Longrightarrow> length (requests (fst (init cfg s))) = 1"
  using getStringifiedData_obj[of cfg kvs]
  by (auto simp: init_def Let_def ajax_def is_request_def)

lemma timeout_handler_unfired:
  "DEFAULT_GDPR_SCOPE cfg = Num 1 \<Longrightarrow> unfired s \<Longrightarrow> unfired (fst (timeout_handler cfg s))"
  by (simp add: timeout_handler_def unfired_def is_request_def)

lemma timeout_handler_no_error:
  "DEFAULT_GDPR_SCOPE cfg = Num 1 \<Longrightarrow> snd (timeout_handler cfg s) = None"
  by (simp add: timeout_handler_def)

lemma message_listener_unfired:
  "js_get d ''type'' \<noteq> Inr (JStr ''consent-data'') \<Longrightarrow> fst (message_listener cfg d s) = s"
  by (simp add: message_listener_def split: sum.splits)

lemma unfired_upd [simp]:
  "unfired (s\<lparr>timerSet := b\<rparr>) = unfired s"
  "unfired (s\<lparr>requested := c\<rparr>) = unfired s"
  by (simp_all add: unfired_def)

lemma dispatched_unfired:
  "filter is_request (fst r) = [] \<Longrightarrow> unfired s \<Longrightarrow> unfired (fst (dispatched r s))"
  by (simp add: unfired_def requests_dispatched)

lemma handle_unfired:
  assumes "DEFAULT_GDPR_SCOPE cfg = Num 1" and "\<not> is_consent_data ev" and "unfired s"
  shows "unfired (fst (handle cfg s ev))"
proof (cases ev)
  case TimerFired
  with assms show ?thesis by (simp add: handle_def timeout_handler_unfired)
next
  case (Message d)
  with assms show ?thesis by (simp add: handle_def is_consent_data_def message_listener_unfired)
next
  case (ReadyState rs st tx r)
  with assms show ?thesis
    by (simp add: handle_def dispatched_unfired onreadystatechange_no_request)
next
  case TransportFired
  with assms show ?thesis
    by (simp add: handle_def dispatched_unfired doAllSyncs_no_request split: option.splits)
qed

lemma step_unfired:
  assumes "DEFAULT_GDPR_SCOPE cfg = Num 1" and "\<not> is_consent_data ev" and "unfired s"
  shows "unfired (step cfg s ev)"
  using handle_unfired[OF assms]
  by (cases "handle cfg s ev") (auto simp: step_def unfired_def is_request_def split: option.splits)

lemma run_unfired:
  assumes "DEFAULT_GDPR_SCOPE cfg = Num 1"
  shows "list_all (\<lambda>ev. \<not> is_consent_data ev) evs \<Longrightarrow> unfired s \<Longrightarrow> unfired (run cfg s evs)"
  unfolding run_def
  by (induction evs arbitrary: s) (simp_all add: step_unfired[OF assms])

lemma loaded_unfired: "unfired loaded"
  by (simp add: unfired_def loaded_def requests_def is_request_def)

lemma run_snoc: "run cfg s (evs @ [ev]) = step cfg (run cfg s evs) ev"
  by (simp add: run_def)

lemma consent_fires:
  assumes "unfired s" and "js_get m ''type'' = Inr (JStr ''consent-data'')"
  shows "length (requests (step cfg s (Message m))) = 1"
proof -
  obtain kvs where m: "m = JObj kvs" using js_get_type_obj[OF assms(2)] by blast
  have "length (requests (fst (init cfg (s\<lparr>consent := m, timerSet := False\<rparr>)))) = 1"
    using assms(1) by (intro init_fires[where kvs = kvs]) (simp_all add: unfired_def m)
  moreover have "snd (init cfg (s\<lparr>consent := m, timerSet := False\<rparr>)) = None"
    using getStringifiedData_obj[of cfg kvs] by (auto simp: init_def Let_def m)
  ultimately show ?thesis
    using assms
    by (cases "init cfg (s\<lparr>consent := m, timerSet := False\<rparr>)")
       (simp add: step_def handle_def message_listener_def unfired_def Let_def)
qed

text \<open>
  With the default scope 1 the timeout fires and sends nothing, and a consent message that
  arrives after it still sends the request: the flag is down, so the listener calls
  \<^verbatim>\<open>init\<close>.
\<close>

theorem late_consent_fires:
  "DEFAULT_GDPR_SCOPE
     (configure \<lparr>q_endpoint = [], q_args = [], q_max_sync_count = [], q_timeout = [],
                 q_defaultGdprScope = ''1''\<rparr>) = Num 1
   \<and> requests
       (run (configure \<lparr>q_endpoint = [], q_args = [], q_max_sync_count = [], q_timeout = [],
                        q_defaultGdprScope = ''1''\<rparr>)
          loaded [TimerFired, Message (JObj [(''type'', JStr ''consent-data'')])])
     = [XhrSend ''https://prebid.adnxs.com/pbs/v1/cookie_sync''
          (JSON_stringify [(''limit'', JNum (Num 10))])]"
  by code_simp

text \<open>
  Claim C2, as the code has it. When the default scope is 1 and the timeout fires with no
  consent message having arrived, no request is sent, and none is sent for as long as no
  consent message arrives, whatever else happens. A consent message that arrives after the
  timeout has fired sends the request, once.
\<close>

theorem unfired_until_consent:
  assumes "DEFAULT_GDPR_SCOPE cfg = Num 1"
    and "list_all (\<lambda>ev. \<not> is_consent_data ev) evs"
    and "js_get m ''type'' = Inr (JStr ''consent-data'')"
  shows "requests (run cfg loaded (TimerFired # evs)) = []
         \<and> length (requests (run cfg loaded (TimerFired # evs @ [Message m]))) = 1"
proof -
  have all: "list_all (\<lambda>ev. \<not> is_consent_data ev) (TimerFired # evs)"
    using assms(2) by (simp add: is_consent_data_def)
  have u: "unfired (run cfg loaded (TimerFired # evs))"
    by (rule run_unfired[OF assms(1) all loaded_unfired])
  have "run cfg loaded (TimerFired # evs @ [Message m])
          = step cfg (run cfg loaded (TimerFired # evs)) (Message m)"
    using run_snoc[of cfg loaded "TimerFired # evs" "Message m"] by simp
  with consent_fires[OF u assms(3)] u show ?thesis by (simp add: unfired_def)
qed

theorem unfired_until_consent_witness:
  "requests
       (run (configure \<lparr>q_endpoint = [], q_args = [], q_max_sync_count = [], q_timeout = [],
                        q_defaultGdprScope = ''1''\<rparr>)
          loaded [TimerFired, ReadyState 4 200 ''OK'' Malformed, Message JNull]) = []
   \<and> length (requests
       (run (configure \<lparr>q_endpoint = [], q_args = [], q_max_sync_count = [], q_timeout = [],
                        q_defaultGdprScope = ''1''\<rparr>)
          loaded [TimerFired, ReadyState 4 200 ''OK'' Malformed, Message JNull,
                  Message (JObj [(''type'', JStr ''consent-data'')])])) = 1"
proof -
  have scope: "DEFAULT_GDPR_SCOPE
     (configure \<lparr>q_endpoint = [], q_args = [], q_max_sync_count = [], q_timeout = [],
                 q_defaultGdprScope = ''1''\<rparr>) = Num 1"
    by code_simp
  have quiet: "list_all (\<lambda>ev. \<not> is_consent_data ev) [ReadyState 4 200 ''OK'' Malformed, Message JNull]"
    by (simp add: is_consent_data_def)
  have msg: "js_get (JObj [(''type'', JStr ''consent-data'')]) ''type'' = Inr (JStr ''consent-data'')"
    by simp
  from unfired_until_consent[OF scope quiet msg] show ?thesis by simp
qed


section \<open>The response\<close>







text \<open>The body \<^verbatim>\<open>null\<close> is JSON, and reading its status throws a TypeError.\<close>

lemma null_response_uncaught:
  "trace (run (configure \<lparr>q_endpoint = [], q_args = [], q_max_sync_count = [], q_timeout = [],
                        q_defaultGdprScope = []\<rparr>)
          loaded [Message (JObj [(''type'', JStr ''consent-data'')]),
                  ReadyState 4 200 ''OK'' (Parsed JNull)])
     = [PostMessage,
        XhrSend ''https://prebid.adnxs.com/pbs/v1/cookie_sync''
          (JSON_stringify [(''limit'', JNum (Num 10))]),
        Uncaught TypeError]"
  by code_simp





section \<open>The payload\<close>

lemma attachConsent_unknown: "attachConsent (JObj []) data = Inr data"
  by (simp add: attachConsent_def)

lemma getStringifiedData_unknown:
  "getStringifiedData cfg (JObj []) =
     Inr (JSON_stringify (AList.update ''limit'' (JNum (MAX_SYNC_COUNT cfg))
            (case ENDPOINT_ARGS cfg of Some endPointArgs \<Rightarrow> endPointArgs | None \<Rightarrow> [])))"
  by (simp add: getStringifiedData_def attachConsent_unknown)

lemma idle_upd [simp]:
  "idle (s\<lparr>requested := c\<rparr>) = idle s"
  by (simp_all add: idle_def)

lemma dispatched_idle:
  "filter is_request (fst r) = [] \<Longrightarrow> idle s \<Longrightarrow> idle (fst (dispatched r s))"
  by (simp add: idle_def requests_dispatched) (simp add: dispatched_def emit_def)

lemma handle_idle:
  assumes "\<not> is_consent_data ev" and "ev \<noteq> TimerFired" and "idle s"
  shows "idle (fst (handle cfg s ev))"
proof (cases ev)
  case TimerFired
  with assms show ?thesis by simp
next
  case (Message d)
  with assms show ?thesis
    by (simp add: handle_def is_consent_data_def message_listener_def split: sum.splits)
next
  case (ReadyState rs st tx r)
  with assms show ?thesis
    by (simp add: handle_def dispatched_idle onreadystatechange_no_request)
next
  case TransportFired
  with assms show ?thesis
    by (simp add: handle_def dispatched_idle doAllSyncs_no_request split: option.splits)
qed

lemma step_idle:
  assumes "\<not> is_consent_data ev" and "ev \<noteq> TimerFired" and "idle s"
  shows "idle (step cfg s ev)"
  using handle_idle[OF assms, of cfg]
  by (cases "handle cfg s ev")
     (auto simp: step_def idle_def emit_def requests_def is_request_def split: option.splits)

lemma run_idle:
  "list_all (\<lambda>ev. \<not> is_consent_data ev \<and> ev \<noteq> TimerFired) evs \<Longrightarrow> idle s \<Longrightarrow> idle (run cfg s evs)"
  unfolding run_def
  by (induction evs arbitrary: s) (simp_all add: step_idle)

lemma loaded_idle: "idle loaded"
  by (simp add: idle_def loaded_def requests_def is_request_def)

lemma timeout_fires:
  assumes "DEFAULT_GDPR_SCOPE cfg = Num 0" and "idle s"
  shows "requests (step cfg s TimerFired) =
     [XhrSend (ENDPOINT cfg)
        (JSON_stringify (AList.update ''limit'' (JNum (MAX_SYNC_COUNT cfg))
            (case ENDPOINT_ARGS cfg of Some endPointArgs \<Rightarrow> endPointArgs | None \<Rightarrow> [])))]"
  using assms
  by (simp add: step_def handle_def timeout_handler_def init_def Let_def idle_def
      getStringifiedData_unknown ajax_def is_request_def)


text \<open>
  The endpoint arguments of the page are copied into the payload as they are, so with
  \<^verbatim>\<open>args=gdpr:1,gdpr_consent:abc\<close> the request sent on the timeout carries both fields.
\<close>

theorem payload_gdpr_from_args:
  "DEFAULT_GDPR_SCOPE
     (configure \<lparr>q_endpoint = [], q_args = ''gdpr:1,gdpr_consent:abc'', q_max_sync_count = [],
                 q_timeout = [], q_defaultGdprScope = ''0''\<rparr>) = Num 0
   \<and> trace (run (configure \<lparr>q_endpoint = [], q_args = ''gdpr:1,gdpr_consent:abc'',
                        q_max_sync_count = [], q_timeout = [], q_defaultGdprScope = ''0''\<rparr>)
          loaded [TimerFired])
     = [PostMessage,
        XhrSend ''https://prebid.adnxs.com/pbs/v1/cookie_sync''
          (JSON_stringify [(''gdpr'', JNum (Num 1)), (''gdpr_consent'', JStr ''abc''),
                           (''limit'', JNum (Num 10))]),
        Log TimedOut []]"
  by code_simp

text \<open>
  Claim C8, as the code has it. When the default scope is 0 and the timeout fires with no
  consent message having arrived, the one request sent carries the endpoint arguments with
  the field \<^verbatim>\<open>limit\<close> set to the sanitized sync count (in place of a \<^verbatim>\<open>limit\<close> among the
  arguments). \<^verbatim>\<open>attachConsent\<close> adds nothing: a field \<^verbatim>\<open>gdpr\<close> or \<^verbatim>\<open>gdpr_consent\<close> is in the
  payload only when the endpoint arguments have it.
\<close>

theorem timeout_payload:
  assumes "DEFAULT_GDPR_SCOPE cfg = Num 0"
    and "list_all (\<lambda>ev. \<not> is_consent_data ev \<and> ev \<noteq> TimerFired) evs"
    and "data = AList.update ''limit'' (JNum (MAX_SYNC_COUNT cfg))
            (case ENDPOINT_ARGS cfg of Some endPointArgs \<Rightarrow> endPointArgs | None \<Rightarrow> [])"
  shows "requests (run cfg loaded (evs @ [TimerFired])) = [XhrSend (ENDPOINT cfg) (JSON_stringify data)]
     \<and> map_of data =
         (map_of (case ENDPOINT_ARGS cfg of Some endPointArgs \<Rightarrow> endPointArgs | None \<Rightarrow> []))
           (''limit'' \<mapsto> JNum (MAX_SYNC_COUNT cfg))"
proof -
  have "idle (run cfg loaded evs)"
    by (rule run_idle[OF assms(2) loaded_idle])
  from timeout_fires[OF assms(1) this] assms(3) show ?thesis
    by (simp add: run_snoc AList.update_conv')
qed

theorem timeout_payload_witness:
  "requests (run (configure \<lparr>q_endpoint = [], q_args = ''a:1'', q_max_sync_count = ''5'',
                        q_timeout = [], q_defaultGdprScope = ''0''\<rparr>)
          loaded [Message JNull, TimerFired])
     = [XhrSend ''https://prebid.adnxs.com/pbs/v1/cookie_sync''
          (JSON_stringify [(''a'', JNum (Num 1)), (''limit'', JNum (Num 5))])]"
proof -
  let ?cfg = "configure \<lparr>q_endpoint = [], q_args = ''a:1'', q_max_sync_count = ''5'',
                        q_timeout = [], q_defaultGdprScope = ''0''\<rparr>"
  have cfg: "?cfg = \<lparr>ENDPOINT = ''https://prebid.adnxs.com/pbs/v1/cookie_sync'',
      ENDPOINT_ARGS = Some [(''a'', JNum (Num 1))], MAX_SYNC_COUNT = Num 5, TIMEOUT = Num 10000,
      DEFAULT_GDPR_SCOPE = Num 0\<rparr>"
    by code_simp
  have scope: "DEFAULT_GDPR_SCOPE ?cfg = Num 0" by (simp add: cfg)
  have quiet: "list_all (\<lambda>ev. \<not> is_consent_data ev \<and> ev \<noteq> TimerFired) [Message JNull]"
    by (simp add: is_consent_data_def)
  from timeout_payload[OF scope quiet refl] show ?thesis by (simp add: cfg)
qed


section \<open>The sync count\<close>


lemma quiet_fields [simp]:
  "consent (quiet s) = consent s" "syncRan (quiet s) = syncRan s" "timerSet (quiet s) = timerSet s"
  "requested (quiet s) = requested s" "waiting (quiet s) = waiting s"
  by (simp_all add: quiet_def)

lemma quiet_upd [simp]:
  "quiet (s\<lparr>syncRan := a\<rparr>) = (quiet s)\<lparr>syncRan := a\<rparr>"
  "quiet (s\<lparr>timerSet := b\<rparr>) = (quiet s)\<lparr>timerSet := b\<rparr>"
  "quiet (s\<lparr>requested := c\<rparr>) = (quiet s)\<lparr>requested := c\<rparr>"
  "quiet (s\<lparr>consent := d\<rparr>) = (quiet s)\<lparr>consent := d\<rparr>"
  "quiet (s\<lparr>waiting := w\<rparr>) = (quiet s)\<lparr>waiting := w\<rparr>"
  by (simp_all add: quiet_def)

lemma quiet_emit: "quiet (emit es s) = emit (filter (\<lambda>e. \<not> is_request e) es) (quiet s)"
  by (simp add: quiet_def emit_def)

lemma quiet_idem [simp]: "quiet (quiet s) = quiet s"
  by (simp add: quiet_def)

text \<open>Whether the payload can be built depends on the consent only.\<close>

lemma attachConsent_error:
  "(case attachConsent c d of Inl e \<Rightarrow> Some e | Inr x \<Rightarrow> None)
     = (case attachConsent c d' of Inl e \<Rightarrow> Some e | Inr x \<Rightarrow> None)"
  by (simp add: attachConsent_def split: sum.splits)

lemma getStringifiedData_error:
  "(case getStringifiedData cfg c of Inl e \<Rightarrow> Some e | Inr x \<Rightarrow> None) = payload_error c"
proof -
  let ?d = "AList.update ''limit'' (JNum (MAX_SYNC_COUNT cfg))
              (case ENDPOINT_ARGS cfg of Some endPointArgs \<Rightarrow> endPointArgs | None \<Rightarrow> [])"
  have "(case getStringifiedData cfg c of Inl e \<Rightarrow> Some e | Inr x \<Rightarrow> None)
          = (case attachConsent c ?d of Inl e \<Rightarrow> Some e | Inr x \<Rightarrow> None)"
    by (simp add: getStringifiedData_def Let_def split: sum.splits)
  also have "\<dots> = payload_error c"
    unfolding payload_error_def by (rule attachConsent_error)
  finally show ?thesis .
qed

lemma init_quiet:
  "quiet (fst (init cfg s)) = fired (consent s) (quiet s)"
  "snd (init cfg s) = payload_error (consent s)"
proof -
  show "quiet (fst (init cfg s)) = fired (consent s) (quiet s)"
  proof (cases "getStringifiedData cfg (consent s)")
    case (Inl e)
    with getStringifiedData_error[of cfg "consent s", symmetric] show ?thesis
      by (simp add: init_def Let_def fired_def)
  next
    case (Inr x)
    with getStringifiedData_error[of cfg "consent s", symmetric] show ?thesis
      by (simp add: init_def Let_def fired_def ajax_def emit_def quiet_def is_request_def)
  qed
  show "snd (init cfg s) = payload_error (consent s)"
    using getStringifiedData_error[of cfg "consent s", symmetric]
    by (cases "getStringifiedData cfg (consent s)") (simp_all add: init_def Let_def)
qed

text \<open>The handlers, seen through \<open>quiet\<close>.\<close>

lemma timeout_handler_quiet:
  "quiet (fst (timeout_handler cfg s)) = timeout_q (DEFAULT_GDPR_SCOPE cfg) (quiet s)"
  "snd (timeout_handler cfg s) =
     (if \<not> syncRan s \<and> \<not> truthy (JNum (DEFAULT_GDPR_SCOPE cfg)) then payload_error (consent s)
      else None)"
proof -
  obtain s1 err where i: "init cfg s = (s1, err)" by (cases "init cfg s")
  from init_quiet[of cfg s] i have q: "quiet s1 = fired (consent s) (quiet s)"
    and e: "err = payload_error (consent s)" by simp_all
  show "quiet (fst (timeout_handler cfg s)) = timeout_q (DEFAULT_GDPR_SCOPE cfg) (quiet s)"
    using i q e[symmetric]
    by (cases err) (simp_all add: timeout_handler_def timeout_q_def quiet_emit is_request_def)
  show "snd (timeout_handler cfg s) =
     (if \<not> syncRan s \<and> \<not> truthy (JNum (DEFAULT_GDPR_SCOPE cfg)) then payload_error (consent s)
      else None)"
    using i e[symmetric] by (cases err) (simp_all add: timeout_handler_def)
qed

lemma message_listener_quiet:
  "quiet (fst (message_listener cfg d s)) = message_q d (quiet s)"
  "snd (message_listener cfg d s) =
     (case js_get d ''type'' of
        Inl e \<Rightarrow> Some e
      | Inr t \<Rightarrow> if t = JStr ''consent-data'' \<and> \<not> syncRan s then payload_error d else None)"
  by (simp_all add: message_listener_def message_q_def Let_def init_quiet split: sum.splits)


lemma dispatched_quiet:
  "quiet (fst (dispatched r s)) = fst (dispatched (filter (\<lambda>e. \<not> is_request e) (fst r), snd r) (quiet s))"
  "snd (dispatched r s) = snd (dispatched r (quiet s))"
  by (simp_all add: dispatched_def quiet_emit)

lemma handle_quiet:
  "quiet (fst (handle cfg s ev)) = handle_q (DEFAULT_GDPR_SCOPE cfg) (quiet s) ev"
  "snd (handle cfg s ev) = error_q (DEFAULT_GDPR_SCOPE cfg) (quiet s) ev"
proof -
  show "quiet (fst (handle cfg s ev)) = handle_q (DEFAULT_GDPR_SCOPE cfg) (quiet s) ev"
  proof (cases ev)
    case TimerFired
    then show ?thesis by (simp add: handle_def handle_q_def timeout_handler_quiet)
  next
    case (Message d)
    then show ?thesis by (simp add: handle_def handle_q_def message_listener_quiet)
  next
    case (ReadyState rs st tx r)
    then show ?thesis by (simp add: handle_def handle_q_def dispatched_quiet)
  next
    case TransportFired
    then show ?thesis by (simp add: handle_def handle_q_def dispatched_quiet split: option.splits)
  qed
  show "snd (handle cfg s ev) = error_q (DEFAULT_GDPR_SCOPE cfg) (quiet s) ev"
  proof (cases ev)
    case TimerFired
    then show ?thesis by (simp add: handle_def error_q_def timeout_handler_quiet)
  next
    case (Message d)
    then show ?thesis
      by (simp add: handle_def error_q_def message_listener_quiet split: sum.splits)
  next
    case (ReadyState rs st tx r)
    then show ?thesis by (simp add: handle_def error_q_def dispatched_def)
  next
    case TransportFired
    then show ?thesis by (simp add: handle_def error_q_def dispatched_def split: option.splits)
  qed
qed

lemma step_quiet:
  "quiet (step cfg s ev) =
     (case error_q (DEFAULT_GDPR_SCOPE cfg) (quiet s) ev of
        None \<Rightarrow> handle_q (DEFAULT_GDPR_SCOPE cfg) (quiet s) ev
      | Some e \<Rightarrow> emit [Uncaught e] (handle_q (DEFAULT_GDPR_SCOPE cfg) (quiet s) ev))"
proof -
  obtain s1 err where h: "handle cfg s ev = (s1, err)" by (cases "handle cfg s ev")
  from handle_quiet[of cfg s ev] h
  have q: "handle_q (DEFAULT_GDPR_SCOPE cfg) (quiet s) ev = quiet s1"
    and e: "error_q (DEFAULT_GDPR_SCOPE cfg) (quiet s) ev = err" by simp_all
  show ?thesis
    unfolding q e step_def h
    by (cases err) (simp_all add: quiet_emit is_request_def)
qed

lemma run_quiet:
  assumes "DEFAULT_GDPR_SCOPE cfg = DEFAULT_GDPR_SCOPE cfg'"
  shows "quiet s = quiet s' \<Longrightarrow> quiet (run cfg s evs) = quiet (run cfg' s' evs)"
  unfolding run_def
proof (induction evs arbitrary: s s')
  case Nil
  then show ?case by simp
next
  case (Cons ev evs)
  have "quiet (step cfg s ev) = quiet (step cfg' s' ev)"
    by (simp only: step_quiet assms Cons.prems)
  then show ?case by (simp add: Cons.IH)
qed

lemma transports_quiet: "transports (quiet s) = transports s"
  by (auto simp: transports_def quiet_def is_transport_def is_request_def
      intro!: filter_cong split: effect.splits)

lemma attachConsent_limit:
  "attachConsent c d = Inr d' \<Longrightarrow> map_of d' ''limit'' = map_of d ''limit''"
  by (auto simp: attachConsent_def AList.update_conv' split: sum.splits if_splits)

lemma getStringifiedData_limit:
  "(\<exists>e. getStringifiedData cfg c = Inl e)
   \<or> (\<exists>d. getStringifiedData cfg c = Inr (JSON_stringify d)
           \<and> map_of d ''limit'' = Some (JNum (MAX_SYNC_COUNT cfg)))"
proof (cases "attachConsent c (AList.update ''limit'' (JNum (MAX_SYNC_COUNT cfg))
            (case ENDPOINT_ARGS cfg of Some endPointArgs \<Rightarrow> endPointArgs | None \<Rightarrow> []))")
  case (Inl e)
  then show ?thesis by (simp add: getStringifiedData_def Let_def)
next
  case (Inr d)
  from attachConsent_limit[OF this] Inr show ?thesis
    by (simp add: getStringifiedData_def Let_def AList.update_conv')
qed

text \<open>
  Claim C10. The sanitized sync count is the field \<^verbatim>\<open>limit\<close> of the payload and nothing
  else: for the same events of a page load, responses included, two configurations that
  differ in the sync count alone start the same transports, in the same order. The
  dispatcher has no limit on the number of syncs.
\<close>

theorem sync_count_never_caps:
  "transports (run (cfg\<lparr>MAX_SYNC_COUNT := m\<rparr>) loaded evs)
     = transports (run (cfg\<lparr>MAX_SYNC_COUNT := n\<rparr>) loaded evs)
   \<and> ((\<exists>e. getStringifiedData cfg c = Inl e)
        \<or> (\<exists>d. getStringifiedData cfg c = Inr (JSON_stringify d)
                \<and> map_of d ''limit'' = Some (JNum (MAX_SYNC_COUNT cfg))))"
proof -
  have "quiet (run (cfg\<lparr>MAX_SYNC_COUNT := m\<rparr>) loaded evs)
      = quiet (run (cfg\<lparr>MAX_SYNC_COUNT := n\<rparr>) loaded evs)"
    by (rule run_quiet) simp_all
  then have "transports (run (cfg\<lparr>MAX_SYNC_COUNT := m\<rparr>) loaded evs)
     = transports (run (cfg\<lparr>MAX_SYNC_COUNT := n\<rparr>) loaded evs)"
    by (metis transports_quiet)
  with getStringifiedData_limit[of cfg c] show ?thesis by blast
qed

section \<open>The sanitizers\<close>
























end
